theory Spec2Isabelle
  imports Complex_Main "HOL-Library.Multiset" "HOL-Library.Monad_Syntax"
begin

section \<open>Data model\<close>

text \<open>
  The payment service (NestJS, TypeScript) keeps payments in a \<^verbatim>\<open>Map<string, PaymentEntity>\<close>
  mirrored to a JSON file. This theory embeds the entity
  (\<^verbatim>\<open>payment.entity.ts\<close>), the repository (\<^verbatim>\<open>payment.repository.ts\<close>) and the service
  (\<^verbatim>\<open>payment.service.ts\<close>).

  \<^item> A \<^verbatim>\<open>Date\<close> is its time value, the milliseconds since the epoch, an \<open>int\<close>.
  \<^item> An optional property (\<^verbatim>\<open>description?: string\<close>) is an \<open>option\<close>; \<open>None\<close> is
    \<^verbatim>\<open>undefined\<close>.
  \<^item> \<^verbatim>\<open>amount: number\<close> is an \<open>int\<close> (the smallest currency unit).
  \<^item> \<^verbatim>\<open>Record<string, any>\<close> holds JSON values (it arrives in a request body): an
    association list in property order.
\<close>

datatype PaymentStatus = PENDING | PROCESSING | COMPLETED | FAILED | CANCELLED | REFUNDED

text \<open>
  Modelled from the spec: \<^verbatim>\<open>enums/payment-status.enum.ts\<close> and
  \<^verbatim>\<open>enums/payment-method.enum.ts\<close> are not among the sources. The members of
  \<^verbatim>\<open>PaymentStatus\<close> are the keys of \<^verbatim>\<open>validTransitions\<close>; their string values (used when a
  status is compared by the sort and written to the file) are the lower-case names, as in the
  README's \<^verbatim>\<open>?status=pending\<close>. A \<^verbatim>\<open>PaymentMethod\<close> is its string value.
\<close>

fun statusValue :: "PaymentStatus \<Rightarrow> string" where
  "statusValue PENDING = ''pending''"
| "statusValue PROCESSING = ''processing''"
| "statusValue COMPLETED = ''completed''"
| "statusValue FAILED = ''failed''"
| "statusValue CANCELLED = ''cancelled''"
| "statusValue REFUNDED = ''refunded''"


type_synonym PaymentMethod = string

definition CREDIT_CARD :: PaymentMethod where
  "CREDIT_CARD = ''credit_card''"

datatype json =
    JNull
  | JBool bool
  | JNum int
  | JStr string
  | JArr "json list"
  | JObj "(string \<times> json) list"

type_synonym time = int
type_synonym Metadata = "(string \<times> json) list"

record PaymentEntity =
  id' :: string
  amount :: int
  currency :: string
  paymentMethod :: PaymentMethod
  status :: PaymentStatus
  customerId :: string
  description :: "string option"
  metadata :: "Metadata option"
  createdAt :: time
  updatedAt :: time
  processedAt :: "time option"
  failureReason :: "string option"



record UpdatePaymentDto =
  u_status :: "PaymentStatus option"
  u_metadata :: "Metadata option"
  u_failureReason :: "string option"

section \<open>The runtime: clock, identifiers, dates as text\<close>

text \<open>
  What the code takes from outside the repository is a parameter of the model:
  \<^item> \<open>clock rt n\<close> is the value of the \<open>n\<close>-th \<^verbatim>\<open>new Date()\<close> the process evaluates; the
    number of readings made so far is the component \<open>ticks\<close> of the state. Two readings in
    one method are two values.
  \<^item> \<open>uuidv4 rt n\<close> is the result of the \<open>n\<close>-th call of \<^verbatim>\<open>uuidv4()\<close>.
  \<^item> \<open>toISOString rt\<close> is \<^verbatim>\<open>Date.prototype.toISOString\<close> (what \<^verbatim>\<open>JSON.stringify\<close> writes for a
    \<^verbatim>\<open>Date\<close>), \<open>dateParse rt\<close> the time value of \<^verbatim>\<open>new Date(string)\<close>.
\<close>

record runtime =
  clock :: "nat \<Rightarrow> time"
  uuidv4 :: "nat \<Rightarrow> string"
  toISOString :: "time \<Rightarrow> string"
  dateParse :: "string \<Rightarrow> time"

definition newDate :: "runtime \<Rightarrow> nat \<Rightarrow> time \<times> nat" where
  "newDate rt n = (clock rt n, Suc n)"

text \<open>JavaScript truthiness of an optional string: \<^verbatim>\<open>undefined\<close> and \<^verbatim>\<open>''\<close> are falsy.\<close>

fun truthy :: "string option \<Rightarrow> bool" where
  "truthy None = False"
| "truthy (Some s) = (s \<noteq> [])"

section \<open>PaymentEntity\<close>


text \<open>
  \<^verbatim>\<open>
  updateStatus(status: PaymentStatus, failureReason?: string): void {
    this.status = status;
    this.updatedAt = new Date();
    if (status === PaymentStatus.COMPLETED || status === PaymentStatus.FAILED) {
      this.processedAt = new Date();
    }
    if (failureReason) {
      this.failureReason = failureReason;
    }
  }
  \<close>
\<close>

definition updateStatus ::
  "runtime \<Rightarrow> nat \<Rightarrow> PaymentStatus \<Rightarrow> string option \<Rightarrow> PaymentEntity \<Rightarrow> PaymentEntity \<times> nat" where
  "updateStatus rt n s fr p =
     (let p1 = p\<lparr>status := s\<rparr>;
          (t1, n1) = newDate rt n;
          p2 = p1\<lparr>updatedAt := t1\<rparr>;
          (p3, n3) = (if s = COMPLETED \<or> s = FAILED
                      then (let (t2, n2) = newDate rt n1 in (p2\<lparr>processedAt := Some t2\<rparr>, n2))
                      else (p2, n1));
          p4 = (if truthy fr then p3\<lparr>failureReason := fr\<rparr> else p3)
      in (p4, n3))"

text \<open>
  The object spread \<^verbatim>\<open>{ ...a, ...b }\<close>: the properties of \<open>a\<close> in their order, each key of
  \<open>b\<close> overwriting in place or being appended. Spreading \<^verbatim>\<open>undefined\<close> adds nothing.
  (JavaScript enumerates integer-like keys first; the order of the entries is that of
  other keys, and what is proved of a merge is about the value of each key.)
\<close>

fun assign :: "string \<Rightarrow> json \<Rightarrow> Metadata \<Rightarrow> Metadata" where
  "assign k v [] = [(k, v)]"
| "assign k v ((k', v') # kvs) =
     (if k' = k then (k, v) # kvs else (k', v') # assign k v kvs)"

fun spread :: "Metadata \<Rightarrow> Metadata \<Rightarrow> Metadata" where
  "spread a [] = a"
| "spread a ((k, v) # b) = spread (assign k v a) b"

definition spread2 :: "Metadata option \<Rightarrow> Metadata \<Rightarrow> Metadata" where
  "spread2 a b = spread (spread [] (case a of None \<Rightarrow> [] | Some m \<Rightarrow> m)) b"

text \<open>
  \<^verbatim>\<open>
  updateMetadata(metadata: Record<string, any>): void {
    this.metadata = { ...this.metadata, ...metadata };
    this.updatedAt = new Date();
  }
  \<close>
\<close>

definition updateMetadata ::
  "runtime \<Rightarrow> nat \<Rightarrow> Metadata \<Rightarrow> PaymentEntity \<Rightarrow> PaymentEntity \<times> nat" where
  "updateMetadata rt n m p =
     (let p1 = p\<lparr>metadata := Some (spread2 (metadata p) m)\<rparr>;
          (t, n1) = newDate rt n
      in (p1\<lparr>updatedAt := t\<rparr>, n1))"

section \<open>PaymentRepository\<close>

text \<open>
  The \<^verbatim>\<open>Map<string, PaymentEntity>\<close> in insertion order: \<^verbatim>\<open>set\<close> replaces the value of a
  present key where it stands and appends a new key; \<^verbatim>\<open>get\<close> is \<open>map_of\<close>; \<^verbatim>\<open>values()\<close> lists
  the values in insertion order.
\<close>

fun Map_set :: "string \<Rightarrow> PaymentEntity \<Rightarrow> (string \<times> PaymentEntity) list
    \<Rightarrow> (string \<times> PaymentEntity) list" where
  "Map_set k v [] = [(k, v)]"
| "Map_set k v ((k', v') # kvs) =
     (if k' = k then (k, v) # kvs else (k', v') # Map_set k v kvs)"

definition Map_values :: "(string \<times> PaymentEntity) list \<Rightarrow> PaymentEntity list" where
  "Map_values kvs = map snd kvs"

text \<open>
  The state of the process: the repository's map, the file mirror (\<open>None\<close> when the file
  does not exist; otherwise the JSON value whose text it holds), the number of clock
  readings and of identifiers drawn so far.
\<close>

record world =
  payments :: "(string \<times> PaymentEntity) list"
  dataFile :: "json option"
  ticks :: nat
  issued :: nat

text \<open>
  A map built by the repository has one entry per key, and every entity is stored under
  its own id (\<^verbatim>\<open>this.payments.set(payment.id, payment)\<close> is the only write).
\<close>

definition wf_store :: "(string \<times> PaymentEntity) list \<Rightarrow> bool" where
  "wf_store kvs \<longleftrightarrow> distinct (map fst kvs) \<and> list_all (\<lambda>(k, p). id' p = k) kvs"

text \<open>
  \<^verbatim>\<open>JSON.stringify(payment.toJSON())\<close>: the properties in the order of the object literal
  of \<^verbatim>\<open>toJSON\<close>, a property whose value is \<^verbatim>\<open>undefined\<close> left out, a \<^verbatim>\<open>Date\<close> written by
  \<^verbatim>\<open>toISOString\<close>.
\<close>

definition optional :: "string \<Rightarrow> 'a option \<Rightarrow> ('a \<Rightarrow> json) \<Rightarrow> (string \<times> json) list" where
  "optional k v f = (case v of None \<Rightarrow> [] | Some x \<Rightarrow> [(k, f x)])"

definition toJSON :: "runtime \<Rightarrow> PaymentEntity \<Rightarrow> json" where
  "toJSON rt p = JObj (
     [(''id'', JStr (id' p)),
      (''amount'', JNum (amount p)),
      (''currency'', JStr (currency p)),
      (''paymentMethod'', JStr (paymentMethod p)),
      (''status'', JStr (statusValue (status p))),
      (''customerId'', JStr (customerId p))]
     @ optional ''description'' (description p) JStr
     @ optional ''metadata'' (metadata p) JObj
     @ [(''createdAt'', JStr (toISOString rt (createdAt p))),
        (''updatedAt'', JStr (toISOString rt (updatedAt p)))]
     @ optional ''processedAt'' (processedAt p) (\<lambda>t. JStr (toISOString rt t))
     @ optional ''failureReason'' (failureReason p) JStr)"

text \<open>
  \<^verbatim>\<open>
  private async saveToFile(): Promise<void> {
    try {
      const paymentsArray = Array.from(this.payments.values()).map((payment) =>
        payment.toJSON());
      await fs.writeFile(this.dataFilePath, JSON.stringify(paymentsArray, null, 2), 'utf-8');
    } catch (error) { this.logger.error(...); }
  }
  \<close>
  The write is taken to succeed (a failed write is logged and leaves the file as it was).
\<close>

definition saveToFile :: "runtime \<Rightarrow> world \<Rightarrow> world" where
  "saveToFile rt w = w\<lparr>dataFile := Some (JArr (map (toJSON rt) (Map_values (payments w))))\<rparr>"










definition findById :: "string \<Rightarrow> world \<Rightarrow> PaymentEntity option" where
  "findById i w = map_of (payments w) i"

definition update :: "runtime \<Rightarrow> PaymentEntity \<Rightarrow> world \<Rightarrow> PaymentEntity \<times> world" where
  "update rt payment w =
     (payment, saveToFile rt (w\<lparr>payments := Map_set (id' payment) payment (payments w)\<rparr>))"

subsection \<open>Sorting and pagination\<close>

text \<open>
  \<^verbatim>\<open>getSortValue\<close> returns a number (\<^verbatim>\<open>amount\<close>, \<^verbatim>\<open>getTime()\<close>) or a string; \<^verbatim>\<open>>\<close> and \<^verbatim>\<open><\<close>
  compare two numbers by value and two strings by their code units. For one \<^verbatim>\<open>sortBy\<close> all
  values are of one kind; a number is never compared with a string.
\<close>

datatype sortval = NumV int | StrV string

fun str_lt :: "string \<Rightarrow> string \<Rightarrow> bool" where
  "str_lt [] [] = False"
| "str_lt [] (y # ys) = True"
| "str_lt (x # xs) [] = False"
| "str_lt (x # xs) (y # ys) =
     (if (of_char x :: nat) < of_char y then True
      else if (of_char y :: nat) < of_char x then False
      else str_lt xs ys)"

fun js_lt :: "sortval \<Rightarrow> sortval \<Rightarrow> bool" where
  "js_lt (NumV a) (NumV b) = (a < b)"
| "js_lt (StrV a) (StrV b) = str_lt a b"
| "js_lt _ _ = False"

definition js_gt :: "sortval \<Rightarrow> sortval \<Rightarrow> bool" where
  "js_gt a b = js_lt b a"

text \<open>
  \<^verbatim>\<open>
  private getSortValue(payment: PaymentEntity, sortBy: string): any {
    switch (sortBy) {
      case 'amount':        return payment.amount;
      case 'status':        return payment.status;
      case 'customerId':    return payment.customerId;
      case 'paymentMethod': return payment.paymentMethod;
      case 'currency':      return payment.currency;
      case 'createdAt':     return payment.createdAt.getTime();
      case 'updatedAt':     return payment.updatedAt.getTime();
      default:              return payment.createdAt.getTime();
    }
  }
  \<close>
\<close>

definition getSortValue :: "PaymentEntity \<Rightarrow> string \<Rightarrow> sortval" where
  "getSortValue payment sortBy =
     (if sortBy = ''amount'' then NumV (amount payment)
      else if sortBy = ''status'' then StrV (statusValue (status payment))
      else if sortBy = ''customerId'' then StrV (customerId payment)
      else if sortBy = ''paymentMethod'' then StrV (paymentMethod payment)
      else if sortBy = ''currency'' then StrV (currency payment)
      else if sortBy = ''createdAt'' then NumV (createdAt payment)
      else if sortBy = ''updatedAt'' then NumV (updatedAt payment)
      else NumV (createdAt payment))"

text \<open>
  The comparator the three paginated queries pass to \<^verbatim>\<open>sort\<close> (the same text in each):
  \<^verbatim>\<open>
  (a, b) => {
    const aValue = this.getSortValue(a, sortBy);
    const bValue = this.getSortValue(b, sortBy);
    if (sortOrder === 'asc') { return aValue > bValue ? 1 : -1; }
    else                     { return aValue < bValue ? 1 : -1; }
  }
  \<close>
\<close>

definition comparator :: "string \<Rightarrow> string \<Rightarrow> PaymentEntity \<Rightarrow> PaymentEntity \<Rightarrow> int" where
  "comparator sortBy sortOrder a b =
     (let aValue = getSortValue a sortBy;
          bValue = getSortValue b sortBy
      in if sortOrder = ''asc'' then (if js_gt aValue bValue then 1 else - 1)
         else (if js_lt aValue bValue then 1 else - 1))"

text \<open>
  \<^verbatim>\<open>Array.prototype.sort(comparefn)\<close>, as a stable insertion sort: an element moves behind its
  right neighbour while \<open>comparefn\<close> of the two is positive. This comparator never returns
  0, so on equal keys the order the engine produces is its own; what is proved below about
  the order is proved for pairwise different keys, where every sorting algorithm agrees.
\<close>

fun insert_by :: "('a \<Rightarrow> 'a \<Rightarrow> int) \<Rightarrow> 'a \<Rightarrow> 'a list \<Rightarrow> 'a list" where
  "insert_by cmp x [] = [x]"
| "insert_by cmp x (y # ys) = (if 0 < cmp x y then y # insert_by cmp x ys else x # y # ys)"

fun Array_sort :: "('a \<Rightarrow> 'a \<Rightarrow> int) \<Rightarrow> 'a list \<Rightarrow> 'a list" where
  "Array_sort cmp [] = []"
| "Array_sort cmp (x # xs) = insert_by cmp x (Array_sort cmp xs)"

text \<open>
  \<^verbatim>\<open>Array.prototype.slice(start, end)\<close> on integers: a negative index counts from the end,
  both are clamped to \<open>0..length\<close>, and the result is empty when the end is not behind the
  start.
\<close>

definition Array_slice :: "'a list \<Rightarrow> int \<Rightarrow> int \<Rightarrow> 'a list" where
  "Array_slice xs start end' =
     (let len = int (length xs);
          k = (if start < 0 then max (len + start) 0 else min start len);
          final = (if end' < 0 then max (len + end') 0 else min end' len)
      in take (nat (final - k)) (drop (nat k) xs))"

record Paginated =
  data :: "PaymentEntity list"
  total :: nat

text \<open>
  \<^verbatim>\<open>
  private paginateResults(payments, page, limit) {
    const total = payments.length;
    const startIndex = (page - 1) * limit;
    const endIndex = startIndex + limit;
    const data = payments.slice(startIndex, endIndex);
    return { data, total };
  }
  \<close>
\<close>

definition paginateResults :: "PaymentEntity list \<Rightarrow> int \<Rightarrow> int \<Rightarrow> Paginated" where
  "paginateResults ps page limit =
     (let total = length ps;
          startIndex = (page - 1) * limit;
          endIndex = startIndex + limit
      in \<lparr> data = Array_slice ps startIndex endIndex, total = total \<rparr>)"

definition findPaginated :: "int \<Rightarrow> int \<Rightarrow> string \<Rightarrow> string \<Rightarrow> world \<Rightarrow> Paginated" where
  "findPaginated page limit sortBy sortOrder w =
     (let allPayments = Map_values (payments w);
          sortedPayments = Array_sort (comparator sortBy sortOrder) allPayments
      in paginateResults sortedPayments page limit)"

definition findByCustomerIdPaginated ::
  "string \<Rightarrow> int \<Rightarrow> int \<Rightarrow> string \<Rightarrow> string \<Rightarrow> world \<Rightarrow> Paginated" where
  "findByCustomerIdPaginated cid page limit sortBy sortOrder w =
     (let customerPayments = filter (\<lambda>payment. customerId payment = cid) (Map_values (payments w));
          sortedPayments = Array_sort (comparator sortBy sortOrder) customerPayments
      in paginateResults sortedPayments page limit)"

definition findByStatusPaginated ::
  "PaymentStatus \<Rightarrow> int \<Rightarrow> int \<Rightarrow> string \<Rightarrow> string \<Rightarrow> world \<Rightarrow> Paginated" where
  "findByStatusPaginated st page limit sortBy sortOrder w =
     (let statusPayments = filter (\<lambda>payment. status payment = st) (Map_values (payments w));
          sortedPayments = Array_sort (comparator sortBy sortOrder) statusPayments
      in paginateResults sortedPayments page limit)"

text \<open>
  \<^verbatim>\<open>Math.ceil(total / limit)\<close> of the service's page metadata, for \<open>limit \<noteq> 0\<close> (JavaScript
  gives \<^verbatim>\<open>Infinity\<close> or \<^verbatim>\<open>NaN\<close> for a zero limit).
\<close>

definition totalPages :: "nat \<Rightarrow> int \<Rightarrow> int" where
  "totalPages n limit = \<lceil>rat_of_int (int n) / rat_of_int limit\<rceil>"

section \<open>PaymentService\<close>

datatype error =
    PaymentNotFoundException string
  | InvalidPaymentStatusException PaymentStatus PaymentStatus


definition getPaymentById :: "string \<Rightarrow> world \<Rightarrow> error + PaymentEntity" where
  "getPaymentById i w =
     (case findById i w of
        None \<Rightarrow> Inl (PaymentNotFoundException i)
      | Some payment \<Rightarrow> Inr payment)"

text \<open>
  \<^verbatim>\<open>
  const validTransitions: Record<PaymentStatus, PaymentStatus[]> = {
    [PENDING]: [PROCESSING, CANCELLED],
    [PROCESSING]: [COMPLETED, FAILED],
    [COMPLETED]: [REFUNDED],
    [FAILED]: [PENDING], // Allow retry
    [CANCELLED]: [],
    [REFUNDED]: [],
  };
  return validTransitions[currentStatus]?.includes(newStatus) || false;
  \<close>
\<close>

fun validTransitions :: "PaymentStatus \<Rightarrow> PaymentStatus list" where
  "validTransitions PENDING = [PROCESSING, CANCELLED]"
| "validTransitions PROCESSING = [COMPLETED, FAILED]"
| "validTransitions COMPLETED = [REFUNDED]"
| "validTransitions FAILED = [PENDING]"
| "validTransitions CANCELLED = []"
| "validTransitions REFUNDED = []"

definition isValidStatusTransition :: "PaymentStatus \<Rightarrow> PaymentStatus \<Rightarrow> bool" where
  "isValidStatusTransition currentStatus newStatus \<longleftrightarrow>
     newStatus \<in> set (validTransitions currentStatus)"

text \<open>
  \<^verbatim>\<open>
  async updatePayment(id, updatePaymentDto) {
    const payment = await this.getPaymentById(id);
    if (updatePaymentDto.status &&
        !this.isValidStatusTransition(payment.status, updatePaymentDto.status)) {
      throw new InvalidPaymentStatusException(payment.status, updatePaymentDto.status);
    }
    if (updatePaymentDto.status) {
      payment.updateStatus(updatePaymentDto.status, updatePaymentDto.failureReason);
    }
    if (updatePaymentDto.metadata) {
      payment.updateMetadata(updatePaymentDto.metadata);
    }
    return this.paymentRepository.update(payment);
  }
  \<close>
  \<^verbatim>\<open>payment\<close> is the object the map holds: the two methods change it where it is stored, and
  \<^verbatim>\<open>update\<close> sets it again under its id. Both \<^verbatim>\<open>throw\<close>s come before the first change, so
  an error leaves the state as it was. A status is a non-empty string and an object is
  truthy, so each test is whether the property is there.
\<close>

definition updatePayment ::
  "runtime \<Rightarrow> string \<Rightarrow> UpdatePaymentDto \<Rightarrow> world \<Rightarrow> (error + PaymentEntity) \<times> world" where
  "updatePayment rt i dto w =
     (case getPaymentById i w of
        Inl e \<Rightarrow> (Inl e, w)
      | Inr payment \<Rightarrow>
          (case u_status dto of
             Some s \<Rightarrow>
               if \<not> isValidStatusTransition (status payment) s
               then (Inl (InvalidPaymentStatusException (status payment) s), w)
               else
                 (let (p1, n1) = updateStatus rt (ticks w) s (u_failureReason dto) payment;
                      (p2, n2) = (case u_metadata dto of
                                    Some m \<Rightarrow> updateMetadata rt n1 m p1
                                  | None \<Rightarrow> (p1, n1));
                      (r, w') = update rt p2 (w\<lparr>ticks := n2\<rparr>)
                  in (Inr r, w'))
           | None \<Rightarrow>
               (let (p2, n2) = (case u_metadata dto of
                                  Some m \<Rightarrow> updateMetadata rt (ticks w) m payment
                                | None \<Rightarrow> (payment, ticks w));
                    (r, w') = update rt p2 (w\<lparr>ticks := n2\<rparr>)
                in (Inr r, w'))))"

subsection \<open>Numbers\<close>

text \<open>
  A JavaScript \<^verbatim>\<open>number\<close> is an IEEE 754 binary64 value; a finite one is a rational. The
  value of a decimal literal and the result of \<^verbatim>\<open>+\<close> are the exact value rounded to the
  nearest binary64 number, ties to the even significand: with \<open>e\<close> the binary exponent of
  \<open>x\<close> (at least \<open>-1022\<close>, where the subnormal numbers begin), the neighbours of \<open>x\<close> are
  the multiples of \<open>2 ^ (e - 52)\<close>. Overflow to \<^verbatim>\<open>Infinity\<close> (beyond \<open>2 ^ 1024\<close>) is not
  modelled; no value here comes near it.
\<close>

definition pow2 :: "int \<Rightarrow> rat" where
  "pow2 e = (if 0 \<le> e then 2 ^ nat e else 1 / 2 ^ nat (- e))"

function exponent_below :: "int \<Rightarrow> rat \<Rightarrow> int" where
  "exponent_below e x = (if e \<le> - 1022 \<or> pow2 e \<le> x then e else exponent_below (e - 1) x)"
  by pat_completeness auto
termination
  by (relation "measure (\<lambda>(e, x). nat (e + 1022))") auto

function exponent_above :: "int \<Rightarrow> rat \<Rightarrow> int" where
  "exponent_above e x = (if 1023 \<le> e \<or> x < pow2 (e + 1) then e else exponent_above (e + 1) x)"
  by pat_completeness auto
termination
  by (relation "measure (\<lambda>(e, x). nat (1023 - e))") auto

definition exponent :: "rat \<Rightarrow> int" where
  "exponent x = (if 1 \<le> \<bar>x\<bar> then exponent_above 0 \<bar>x\<bar> else exponent_below (- 1) \<bar>x\<bar>)"

definition round_half_even :: "rat \<Rightarrow> int" where
  "round_half_even y =
     (let f = \<lfloor>y\<rfloor>; d = y - of_int f
      in if d < 1 / 2 then f else if 1 / 2 < d then f + 1 else if even f then f else f + 1)"

definition binary64 :: "rat \<Rightarrow> rat" where
  "binary64 x = (let q = pow2 (exponent x - 52) in of_int (round_half_even (x / q)) * q)"

definition js_add :: "rat \<Rightarrow> rat \<Rightarrow> rat" where
  "js_add a b = binary64 (a + b)"

text \<open>
  \<^verbatim>\<open>
  private getFailureRate(payment: PaymentEntity): number {
    let failureRate = 0.1;
    if (payment.amount > 10000) { failureRate += 0.1; }
    if (payment.paymentMethod === PaymentMethod.CREDIT_CARD) { failureRate += 0.05; }
    return Math.min(failureRate, 0.5);
  }
  \<close>
  Each literal is the binary64 number nearest to the decimal, each \<^verbatim>\<open>+=\<close> rounds its sum.
\<close>

definition getFailureRate :: "PaymentEntity \<Rightarrow> rat" where
  "getFailureRate payment =
     (let failureRate = binary64 (1 / 10);
          failureRate = (if 10000 < amount payment then js_add failureRate (binary64 (1 / 10))
                         else failureRate);
          failureRate = (if paymentMethod payment = CREDIT_CARD
                         then js_add failureRate (binary64 (5 / 100))
                         else failureRate)
      in min failureRate (binary64 (5 / 10)))"

section \<open>The transition table of the specification\<close>

text \<open>
  The table of the specification, written from its words: PENDING may go to PROCESSING or
  CANCELLED, PROCESSING to COMPLETED or FAILED, COMPLETED to REFUNDED, FAILED back to
  PENDING; CANCELLED and REFUNDED go nowhere.
\<close>

definition spec_transition_table :: "(PaymentStatus \<times> PaymentStatus) list" where
  "spec_transition_table =
     [(PENDING, PROCESSING), (PENDING, CANCELLED),
      (PROCESSING, COMPLETED), (PROCESSING, FAILED),
      (COMPLETED, REFUNDED),
      (FAILED, PENDING)]"

section \<open>Pages and sort keys of the specification\<close>

text \<open>
  What the specification says of a paginated result \<open>r\<close> for the entities matching the
  filter: \<open>total\<close> counts them all; for a page from 1 on, \<open>data\<close> is the slice of the sorted
  list from index \<open>(page - 1) * limit\<close> of length at most \<open>limit\<close>; page 0 and every page
  behind the last one, \<open>ceil (total / limit)\<close>, are empty.
\<close>

definition is_page_of ::
  "PaymentEntity list \<Rightarrow> (PaymentEntity \<Rightarrow> PaymentEntity \<Rightarrow> int) \<Rightarrow> int \<Rightarrow> int \<Rightarrow> Paginated \<Rightarrow> bool" where
  "is_page_of matching cmp page limit r \<longleftrightarrow>
     total r = length matching
     \<and> (1 \<le> page \<and> 0 \<le> limit \<longrightarrow>
          data r = take (nat limit) (drop (nat ((page - 1) * limit)) (Array_sort cmp matching)))
     \<and> (1 \<le> limit \<and> (page = 0 \<or> totalPages (length matching) limit < page) \<longrightarrow> data r = [])"

text \<open>The sort keys the specification names.\<close>

definition sortKeys :: "string list" where
  "sortKeys = [''amount'', ''status'', ''customerId'', ''paymentMethod'', ''currency'',
               ''createdAt'', ''updatedAt'']"

section \<open>Concrete values\<close>

text \<open>
  A runtime whose clock advances by one second at every reading and whose dates are
  written and read as ISO texts within the first minute of the epoch, and a store holding
  one pending payment.
\<close>

definition digits :: string where
  "digits = ''0123456789''"

definition digit :: "int \<Rightarrow> char" where
  "digit d = digits ! nat d"

definition digit_value :: "char \<Rightarrow> int" where
  "digit_value c = int (length (takeWhile (\<lambda>x. x \<noteq> c) digits))"

definition iso_text :: "time \<Rightarrow> string" where
  "iso_text t =
     (let s = t div 1000; f = t mod 1000
      in ''1970-01-01T00:00:'' @ [digit (s div 10), digit (s mod 10)] @ ''.''
         @ [digit (f div 100), digit (f div 10 mod 10), digit (f mod 10)] @ ''Z'')"

definition iso_time :: "string \<Rightarrow> time" where
  "iso_time s =
     (case drop 17 s of
        [s1, s0, dot, f2, f1, f0, z] \<Rightarrow>
          1000 * (10 * digit_value s1 + digit_value s0)
          + 100 * digit_value f2 + 10 * digit_value f1 + digit_value f0
      | _ \<Rightarrow> 0)"

definition rt0 :: runtime where
  "rt0 = \<lparr> clock = (\<lambda>n. 1000 * int n),
           uuidv4 = (\<lambda>n. replicate (Suc n) CHR ''u''),
           toISOString = iso_text,
           dateParse = iso_time \<rparr>"

definition pay0 :: PaymentEntity where
  "pay0 = \<lparr> id' = ''p1'', amount = 300, currency = ''USD'', paymentMethod = ''credit_card'',
            status = PENDING, customerId = ''c1'', description = None,
            metadata = Some [(''a'', JNum 1)], createdAt = 0, updatedAt = 0,
            processedAt = None, failureReason = None \<rparr>"

definition world0 :: world where
  "world0 = \<lparr> payments = [(''p1'', pay0)], dataFile = None, ticks = 1, issued = 0 \<rparr>"

text \<open>Patches that only change the status, applied one after the other to one payment.\<close>

definition status_patch :: "PaymentStatus \<Rightarrow> UpdatePaymentDto" where
  "status_patch s = \<lparr> u_status = Some s, u_metadata = None, u_failureReason = None \<rparr>"

definition apply_patches :: "runtime \<Rightarrow> string \<Rightarrow> UpdatePaymentDto list \<Rightarrow> world \<Rightarrow> world" where
  "apply_patches rt i dtos w = foldl (\<lambda>w dto. snd (updatePayment rt i dto w)) w dtos"

text \<open>A payment that fails, is retried and completes.\<close>

definition retry_patches :: "UpdatePaymentDto list" where
  "retry_patches = map status_patch [PROCESSING, FAILED, PENDING, PROCESSING, COMPLETED]"




text \<open>Three payments with the amounts 300, 100 and 200, created in this order.\<close>

definition pay1 :: PaymentEntity where
  "pay1 = pay0\<lparr> id' := ''p2'', amount := 100, customerId := ''c2'', createdAt := 1000,
                 updatedAt := 1000 \<rparr>"

definition pay2 :: PaymentEntity where
  "pay2 = pay0\<lparr> id' := ''p3'', amount := 200, createdAt := 2000, updatedAt := 2000 \<rparr>"

definition world3 :: world where
  "world3 = \<lparr> payments = [(''p1'', pay0), (''p2'', pay1), (''p3'', pay2)], dataFile = None,
               ticks = 3, issued = 0 \<rparr>"



section \<open>Invariants and auxiliary notions\<close>

text \<open>The value of a property of an optional object, and objects with one entry per key.\<close>

definition property :: "Metadata option \<Rightarrow> string \<Rightarrow> json option" where
  "property a k = (case a of None \<Rightarrow> None | Some m \<Rightarrow> map_of m k)"

definition is_object :: "Metadata \<Rightarrow> bool" where
  "is_object m \<longleftrightarrow> distinct (map fst m)"



section \<open>Properties\<close>

subsection \<open>The state machine\<close>

lemma isValid_table:
  "isValidStatusTransition a b \<longleftrightarrow> (a, b) \<in> set spec_transition_table"
  by (cases a; cases b) (simp_all add: isValidStatusTransition_def spec_transition_table_def)

text \<open>
  C1. For a stored payment \<open>p\<close> and a patch whose status \<open>s\<close> makes \<open>(status p, s)\<close> a pair
  that is not in the transition table, \<open>updatePayment\<close> signals the invalid transition and
  the whole state is as before: the stored entity, its metadata and its \<open>updatedAt\<close>
  included, whatever else the patch carries.
\<close>

theorem updatePayment_invalid_rejected:
  assumes "findById i w = Some p"
      and "u_status dto = Some s"
      and "(status p, s) \<notin> set spec_transition_table"
  shows "updatePayment rt i dto w = (Inl (InvalidPaymentStatusException (status p) s), w)"
  using assms by (simp add: updatePayment_def getPaymentById_def isValid_table)

theorem updatePayment_invalid_rejected_witness:
  "findById ''p1'' world0 = Some pay0
   \<and> (status pay0, COMPLETED) \<notin> set spec_transition_table
   \<and> updatePayment rt0 ''p1''
        \<lparr> u_status = Some COMPLETED, u_metadata = Some [(''b'', JNum 2)], u_failureReason = None \<rparr>
        world0
      = (Inl (InvalidPaymentStatusException PENDING COMPLETED), world0)
   \<and> findById ''p1'' (snd (updatePayment rt0 ''p1''
        \<lparr> u_status = Some COMPLETED, u_metadata = Some [(''b'', JNum 2)], u_failureReason = None \<rparr>
        world0)) = Some pay0"
proof -
  have a: "findById ''p1'' world0 = Some pay0"
    by (simp add: findById_def world0_def)
  have b: "(status pay0, COMPLETED) \<notin> set spec_transition_table"
    by (simp add: pay0_def spec_transition_table_def)
  have c: "status pay0 = PENDING"
    by (simp add: pay0_def)
  show ?thesis
    using updatePayment_invalid_rejected [OF a _ b,
        of "\<lparr> u_status = Some COMPLETED, u_metadata = Some [(''b'', JNum 2)],
              u_failureReason = None \<rparr>" rt0] a b c
    by simp
qed

subsection \<open>What the entity methods change\<close>

lemma updateStatus_fields:
  "status (fst (updateStatus rt n s fr p)) = s"
  "updatedAt (fst (updateStatus rt n s fr p)) = clock rt n"
  "processedAt (fst (updateStatus rt n s fr p)) =
     (if s = COMPLETED \<or> s = FAILED then Some (clock rt (Suc n)) else processedAt p)"
  "failureReason (fst (updateStatus rt n s fr p)) = (if truthy fr then fr else failureReason p)"
  "id' (fst (updateStatus rt n s fr p)) = id' p"
  "metadata (fst (updateStatus rt n s fr p)) = metadata p"
  "createdAt (fst (updateStatus rt n s fr p)) = createdAt p"
  "snd (updateStatus rt n s fr p) = (if s = COMPLETED \<or> s = FAILED then Suc (Suc n) else Suc n)"
  by (simp_all add: updateStatus_def newDate_def Let_def)

lemma updateMetadata_fields:
  "status (fst (updateMetadata rt n m p)) = status p"
  "updatedAt (fst (updateMetadata rt n m p)) = clock rt n"
  "processedAt (fst (updateMetadata rt n m p)) = processedAt p"
  "failureReason (fst (updateMetadata rt n m p)) = failureReason p"
  "id' (fst (updateMetadata rt n m p)) = id' p"
  "metadata (fst (updateMetadata rt n m p)) = Some (spread2 (metadata p) m)"
  "createdAt (fst (updateMetadata rt n m p)) = createdAt p"
  "snd (updateMetadata rt n m p) = Suc n"
  by (simp_all add: updateMetadata_def newDate_def Let_def)

subsection \<open>The map\<close>

lemma map_of_Map_set: "map_of (Map_set k v kvs) = (map_of kvs)(k \<mapsto> v)"
  by (induction kvs) (auto simp: fun_eq_iff)

lemma Map_set_same:
  "map_of kvs k = Some v \<Longrightarrow> distinct (map fst kvs) \<Longrightarrow> Map_set k v kvs = kvs"
proof (induction kvs)
  case Nil
  then show ?case by simp
next
  case (Cons a kvs)
  then show ?case
    by (cases a) (auto split: if_splits)
qed

lemma wf_store_id: "wf_store kvs \<Longrightarrow> map_of kvs k = Some p \<Longrightarrow> id' p = k"
  by (auto simp: wf_store_def list_all_iff dest: map_of_SomeD)




subsection \<open>processedAt\<close>

text \<open>
  C2, as the code has it. \<open>updateStatus\<close> assigns \<open>processedAt\<close> at every transition to
  COMPLETED or FAILED, with the clock reading made for it (the second reading of the
  call), whether or not a value was there; a transition to any other status and a metadata
  merge leave it as it is; a value once set is never unset.
\<close>

theorem processedAt_every_terminal_transition:
  "processedAt (fst (updateStatus rt n s fr p)) =
     (if s = COMPLETED \<or> s = FAILED then Some (clock rt (Suc n)) else processedAt p)
   \<and> (processedAt p \<noteq> None \<longrightarrow> processedAt (fst (updateStatus rt n s fr p)) \<noteq> None)
   \<and> processedAt (fst (updateMetadata rt n m p)) = processedAt p"
  by (simp add: updateStatus_fields updateMetadata_fields)

theorem processedAt_every_terminal_transition_witness:
  "processedAt (fst (updateStatus rt0 5 FAILED None (pay0\<lparr>processedAt := Some 7\<rparr>))) = Some 6000
   \<and> processedAt (fst (updateStatus rt0 5 PENDING None (pay0\<lparr>processedAt := Some 7\<rparr>))) = Some 7"
  using processedAt_every_terminal_transition [of rt0 5 FAILED None "pay0\<lparr>processedAt := Some 7\<rparr>"]
    processedAt_every_terminal_transition [of rt0 5 PENDING None "pay0\<lparr>processedAt := Some 7\<rparr>"]
  by (simp add: rt0_def pay0_def)

text \<open>
  C2 as stated fails: the pending payment is processed and fails (\<open>processedAt\<close> is set
  to the instant 3000), is retried and completes, and \<open>processedAt\<close> is then 7000.
\<close>

theorem processedAt_once_counterexample:
  "map_option processedAt (findById ''p1'' (apply_patches rt0 ''p1'' (take 2 retry_patches) world0))
     = Some (Some 3000)
   \<and> map_option status (findById ''p1'' (apply_patches rt0 ''p1'' retry_patches world0))
     = Some COMPLETED
   \<and> map_option processedAt (findById ''p1'' (apply_patches rt0 ''p1'' retry_patches world0))
     = Some (Some 7000)"
  by code_simp

subsection \<open>Updates\<close>

text \<open>
  C10. For a stored payment and a patch with neither a status nor metadata (a failure
  reason alone changes nothing), \<open>updatePayment\<close> succeeds and returns the entity as it
  was, \<open>updatedAt\<close> included; the map and the clock are untouched, and the only effect is
  that the file is written again.
\<close>

theorem updatePayment_empty_patch:
  assumes "findById i w = Some p"
      and "wf_store (payments w)"
      and "u_status dto = None"
      and "u_metadata dto = None"
  shows "updatePayment rt i dto w = (Inr p, saveToFile rt w)"
proof -
  from assms(1) have m: "map_of (payments w) i = Some p"
    by (simp add: findById_def)
  with assms(2) have "id' p = i"
    by (rule wf_store_id)
  moreover from assms(2) have "distinct (map fst (payments w))"
    by (simp add: wf_store_def)
  ultimately have "Map_set (id' p) p (payments w) = payments w"
    using m by (simp add: Map_set_same)
  then show ?thesis
    using assms by (simp add: updatePayment_def getPaymentById_def update_def saveToFile_def)
qed

theorem updatePayment_empty_patch_witness:
  "updatePayment rt0 ''p1'' \<lparr> u_status = None, u_metadata = None, u_failureReason = Some ''x'' \<rparr> world0
     = (Inr pay0, saveToFile rt0 world0)
   \<and> payments (saveToFile rt0 world0) = payments world0
   \<and> ticks (saveToFile rt0 world0) = ticks world0"
proof -
  have a: "findById ''p1'' world0 = Some pay0"
    by (simp add: findById_def world0_def)
  have b: "wf_store (payments world0)"
    by (simp add: wf_store_def world0_def pay0_def)
  show ?thesis
    using updatePayment_empty_patch [OF a b, of "\<lparr> u_status = None, u_metadata = None, u_failureReason = Some ''x'' \<rparr>" rt0]
    by (simp add: saveToFile_def)
qed

text \<open>A patch with an allowed status: what is returned is what is stored.\<close>

lemma updatePayment_valid:
  assumes "findById i w = Some p"
      and "u_status dto = Some s"
      and "isValidStatusTransition (status p) s"
  shows "fst (updatePayment rt i dto w) =
           Inr (case u_metadata dto of
                  None \<Rightarrow> fst (updateStatus rt (ticks w) s (u_failureReason dto) p)
                | Some m \<Rightarrow> fst (updateMetadata rt (snd (updateStatus rt (ticks w) s (u_failureReason dto) p)) m
                      (fst (updateStatus rt (ticks w) s (u_failureReason dto) p))))"
    and "findById (id' p) (snd (updatePayment rt i dto w)) =
           Some (case u_metadata dto of
                  None \<Rightarrow> fst (updateStatus rt (ticks w) s (u_failureReason dto) p)
                | Some m \<Rightarrow> fst (updateMetadata rt (snd (updateStatus rt (ticks w) s (u_failureReason dto) p)) m
                      (fst (updateStatus rt (ticks w) s (u_failureReason dto) p))))"
proof -
  from assms(1) have g: "getPaymentById i w = Inr p"
    by (simp add: getPaymentById_def)
  show "fst (updatePayment rt i dto w) =
           Inr (case u_metadata dto of
                  None \<Rightarrow> fst (updateStatus rt (ticks w) s (u_failureReason dto) p)
                | Some m \<Rightarrow> fst (updateMetadata rt (snd (updateStatus rt (ticks w) s (u_failureReason dto) p)) m
                      (fst (updateStatus rt (ticks w) s (u_failureReason dto) p))))"
    using g assms(2,3)
    by (cases "u_metadata dto")
      (simp_all add: updatePayment_def update_def case_prod_beta Let_def)
  show "findById (id' p) (snd (updatePayment rt i dto w)) =
           Some (case u_metadata dto of
                  None \<Rightarrow> fst (updateStatus rt (ticks w) s (u_failureReason dto) p)
                | Some m \<Rightarrow> fst (updateMetadata rt (snd (updateStatus rt (ticks w) s (u_failureReason dto) p)) m
                      (fst (updateStatus rt (ticks w) s (u_failureReason dto) p))))"
    using g assms(2,3)
    by (cases "u_metadata dto")
      (simp_all add: updatePayment_def update_def saveToFile_def findById_def case_prod_beta Let_def
        map_of_Map_set updateStatus_fields updateMetadata_fields)
qed


text \<open>
  C9, as the code has it. A patch with an allowed status, FAILED or not, stores its failure
  reason when that is a non-empty string (\<^verbatim>\<open>if (failureReason)\<close> is false for \<^verbatim>\<open>''\<close>), and
  without a failure reason the stored one stays, also on a transition to FAILED.
\<close>

theorem failureReason_stored_when_nonempty:
  assumes "findById i w = Some p"
      and "u_status dto = Some s"
      and "(status p, s) \<in> set spec_transition_table"
  shows "case fst (updatePayment rt i dto w) of
           Inl e \<Rightarrow> False
         | Inr r \<Rightarrow>
             findById (id' p) (snd (updatePayment rt i dto w)) = Some r \<and> status r = s
             \<and> (\<forall>reason. u_failureReason dto = Some reason \<and> reason \<noteq> [] \<longrightarrow>
                    failureReason r = Some reason)
             \<and> (u_failureReason dto = None \<longrightarrow> failureReason r = failureReason p)"
proof -
  from assms(3) have v: "isValidStatusTransition (status p) s"
    by (simp add: isValid_table)
  note u = updatePayment_valid [OF assms(1,2) v, of rt]
  show ?thesis
  proof (cases "u_metadata dto")
    case None
    with u show ?thesis
      by (simp add: updateStatus_fields)
  next
    case (Some m)
    with u show ?thesis
      by (simp add: updateStatus_fields updateMetadata_fields)
  qed
qed

text \<open>
  C9 as stated fails for the empty string: PENDING to PROCESSING with
  \<^verbatim>\<open>failureReason: ''\<close> leaves the failure reason undefined.
\<close>

theorem failureReason_empty_counterexample:
  "(status pay0, PROCESSING) \<in> set spec_transition_table
   \<and> map_sum id failureReason
        (fst (updatePayment rt0 ''p1''
           \<lparr> u_status = Some PROCESSING, u_metadata = None, u_failureReason = Some [] \<rparr> world0))
      = Inr None"
  by code_simp


theorem failureReason_stored_when_nonempty_witness:
  "findById ''p1'' world0 = Some pay0
   \<and> (status pay0, PROCESSING) \<in> set spec_transition_table
   \<and> map_sum id failureReason
        (fst (updatePayment rt0 ''p1''
           \<lparr> u_status = Some PROCESSING, u_metadata = None, u_failureReason = Some ''late'' \<rparr> world0))
      = Inr (Some ''late'')"
proof -
  have a: "findById ''p1'' world0 = Some pay0"
    by (simp add: findById_def world0_def)
  have b: "(status pay0, PROCESSING) \<in> set spec_transition_table"
    by (simp add: pay0_def spec_transition_table_def)
  have c: "u_status \<lparr> u_status = Some PROCESSING, u_metadata = None, u_failureReason = Some ''late'' \<rparr>
             = Some PROCESSING"
    by simp
  from failureReason_stored_when_nonempty [OF a c b, of rt0] a b show ?thesis
    by (cases "fst (updatePayment rt0 ''p1''
           \<lparr> u_status = Some PROCESSING, u_metadata = None, u_failureReason = Some ''late'' \<rparr> world0)")
       simp_all
qed

subsection \<open>The failure rate of the simulator\<close>

lemma literals:
  "binary64 (1 / 10) = 3602879701896397 / 36028797018963968"
  "binary64 (5 / 100) = 3602879701896397 / 72057594037927936"
  "binary64 (5 / 10) = 1 / 2"
  "binary64 (10 / 100) = 3602879701896397 / 36028797018963968"
  "binary64 (15 / 100) = 5404319552844595 / 36028797018963968"
  "binary64 (20 / 100) = 3602879701896397 / 18014398509481984"
  "binary64 (25 / 100) = 1 / 4"
  "binary64 (50 / 100) = 1 / 2"
  "binary64 (15000000000000002 / 100000000000000000) = 5404319552844596 / 36028797018963968"
  by code_simp+

lemma sums:
  "js_add (3602879701896397 / 36028797018963968) (3602879701896397 / 36028797018963968)
     = 3602879701896397 / 18014398509481984"
  "js_add (3602879701896397 / 36028797018963968) (3602879701896397 / 72057594037927936)
     = 5404319552844596 / 36028797018963968"
  "js_add (3602879701896397 / 18014398509481984) (3602879701896397 / 72057594037927936)
     = 1 / 4"
  "js_add (3602879701896397 / 36028797018963968) 0 = 3602879701896397 / 36028797018963968"
  "js_add (3602879701896397 / 18014398509481984) 0 = 3602879701896397 / 18014398509481984"
  "js_add (5404319552844596 / 36028797018963968) 0 = 5404319552844596 / 36028797018963968"
  by code_simp+

lemma getFailureRate_cases:
  "getFailureRate p =
     (if 10000 < amount p
      then (if paymentMethod p = CREDIT_CARD then 1 / 4
            else 3602879701896397 / 18014398509481984)
      else (if paymentMethod p = CREDIT_CARD then 5404319552844596 / 36028797018963968
            else 3602879701896397 / 36028797018963968))"
  unfolding getFailureRate_def Let_def literals
  by (simp only: sums split: if_split) simp

text \<open>
  C7, as the code has it. In binary64 arithmetic the failure rate is
  \<open>min (0.1 + (0.1 if amount > 10000 else 0) + (0.05 if credit card else 0), 0.5)\<close>, the
  sums taken from the left. By the two tests alone it is 0.1, 0.15000000000000002 (the
  number next above 0.15), 0.2 or 0.25, and it never exceeds 0.5.
\<close>

theorem getFailureRate_binary64:
  "getFailureRate p =
     min (js_add (js_add (binary64 (10 / 100))
                         (if 10000 < amount p then binary64 (10 / 100) else 0))
                 (if paymentMethod p = CREDIT_CARD then binary64 (5 / 100) else 0))
         (binary64 (50 / 100))
   \<and> getFailureRate p =
     (if 10000 < amount p
      then (if paymentMethod p = CREDIT_CARD then binary64 (25 / 100) else binary64 (20 / 100))
      else (if paymentMethod p = CREDIT_CARD
            then binary64 (15000000000000002 / 100000000000000000)
            else binary64 (10 / 100)))
   \<and> binary64 (15000000000000002 / 100000000000000000) = binary64 (15 / 100) + pow2 (- 55)
   \<and> getFailureRate p \<le> binary64 (50 / 100)"
proof -
  have a: "getFailureRate p =
     min (js_add (js_add (binary64 (10 / 100))
                         (if 10000 < amount p then binary64 (10 / 100) else 0))
                 (if paymentMethod p = CREDIT_CARD then binary64 (5 / 100) else 0))
         (binary64 (50 / 100))"
    unfolding getFailureRate_cases literals
    by (simp only: sums split: if_split) simp
  have b: "getFailureRate p =
     (if 10000 < amount p
      then (if paymentMethod p = CREDIT_CARD then binary64 (25 / 100) else binary64 (20 / 100))
      else (if paymentMethod p = CREDIT_CARD
            then binary64 (15000000000000002 / 100000000000000000)
            else binary64 (10 / 100)))"
    unfolding getFailureRate_cases literals by (rule refl)
  have c: "binary64 (15000000000000002 / 100000000000000000) = binary64 (15 / 100) + pow2 (- 55)"
    unfolding literals by (simp add: pow2_def)
  have d: "getFailureRate p \<le> binary64 (50 / 100)"
    unfolding getFailureRate_cases literals by simp
  from a b c d show ?thesis
    by (intro conjI)
qed

text \<open>
  C7 as stated fails in its second half: for a credit card and an amount of 300 the code
  returns \<open>0.1 + 0.05\<close>, which in binary64 is 0.15000000000000002 and not the number 0.15.
\<close>

theorem getFailureRate_not_015_counterexample:
  "amount pay0 = 300 \<and> paymentMethod pay0 = CREDIT_CARD
   \<and> getFailureRate pay0 = 5404319552844596 / 36028797018963968
   \<and> binary64 (15 / 100) = 5404319552844595 / 36028797018963968
   \<and> getFailureRate pay0 \<noteq> binary64 (15 / 100)"
proof -
  have a: "amount pay0 = 300" "paymentMethod pay0 = CREDIT_CARD"
    by (simp_all add: pay0_def CREDIT_CARD_def)
  have b: "getFailureRate pay0 = 5404319552844596 / 36028797018963968"
    unfolding getFailureRate_cases by (simp only: a) simp
  have c: "binary64 (15 / 100) = 5404319552844595 / 36028797018963968"
    by (rule literals)
  have d: "getFailureRate pay0 \<noteq> binary64 (15 / 100)"
    unfolding b c by simp
  from a b c d show ?thesis
    by (intro conjI)
qed

theorem getFailureRate_binary64_witness:
  "getFailureRate pay0 = binary64 (15000000000000002 / 100000000000000000)
   \<and> getFailureRate (pay0\<lparr>amount := 10001\<rparr>) = binary64 (25 / 100)
   \<and> getFailureRate pay0 \<le> binary64 (50 / 100)"
proof -
  have a: "amount pay0 = 300" "paymentMethod pay0 = CREDIT_CARD"
    by (simp_all add: pay0_def CREDIT_CARD_def)
  have b: "amount (pay0\<lparr>amount := 10001\<rparr>) = 10001"
    "paymentMethod (pay0\<lparr>amount := 10001\<rparr>) = CREDIT_CARD"
    by (simp_all add: pay0_def CREDIT_CARD_def)
  from getFailureRate_binary64 [of pay0] a
  have 1: "getFailureRate pay0 = binary64 (15000000000000002 / 100000000000000000)"
    and 3: "getFailureRate pay0 \<le> binary64 (50 / 100)"
    by simp_all
  from getFailureRate_binary64 [of "pay0\<lparr>amount := 10001\<rparr>"] b
  have 2: "getFailureRate (pay0\<lparr>amount := 10001\<rparr>) = binary64 (25 / 100)"
    by simp
  from 1 2 3 show ?thesis
    by (intro conjI)
qed

subsection \<open>Metadata\<close>

lemma map_of_assign: "map_of (assign k v a) = (map_of a)(k \<mapsto> v)"
  by (induction a) (auto simp: fun_eq_iff)

lemma map_of_spread: "map_of (spread a b) = map_of a ++ map_of (rev b)"
proof (induction b arbitrary: a)
  case Nil
  then show ?case by simp
next
  case (Cons kv b)
  obtain k v where kv: "kv = (k, v)" by (cases kv)
  have "map_of (spread a (kv # b)) = (map_of a)(k \<mapsto> v) ++ map_of (rev b)"
    by (simp only: kv spread.simps Cons.IH map_of_assign)
  also have "\<dots> = map_of a ++ map_of (rev (kv # b))"
    by (simp add: kv map_add_upd_left fun_eq_iff map_add_def split: option.splits)
  finally show ?case .
qed

lemma map_of_rev_distinct: "distinct (map fst b) \<Longrightarrow> map_of (rev b) = map_of b"
  by (rule map_of_inject_set [THEN iffD2]) (simp_all add: distinct_rev rev_map [symmetric])

lemma assign_fresh: "k \<notin> fst ` set a \<Longrightarrow> assign k v a = a @ [(k, v)]"
  by (induction a) auto

lemma spread_fresh:
  "distinct (map fst b) \<Longrightarrow> fst ` set a \<inter> fst ` set b = {} \<Longrightarrow> spread a b = a @ b"
proof (induction b arbitrary: a)
  case Nil
  then show ?case by simp
next
  case (Cons kv b)
  obtain k v where kv: "kv = (k, v)" by (cases kv)
  from Cons.prems have k: "k \<notin> fst ` set a" and kb: "k \<notin> fst ` set b"
    and d: "distinct (map fst b)" and ab: "fst ` set a \<inter> fst ` set b = {}"
    by (auto simp: kv)
  from k have "spread a (kv # b) = spread (a @ [(k, v)]) b"
    by (simp add: kv assign_fresh)
  also have "\<dots> = (a @ [(k, v)]) @ b"
    using d kb ab by (intro Cons.IH) auto
  finally show ?case by (simp add: kv)
qed

lemma keys_assign_present: "k \<in> fst ` set a \<Longrightarrow> map fst (assign k v a) = map fst a"
  by (induction a) force+

lemma distinct_assign: "distinct (map fst a) \<Longrightarrow> distinct (map fst (assign k v a))"
  by (cases "k \<in> fst ` set a") (simp_all add: keys_assign_present assign_fresh)

lemma distinct_spread: "distinct (map fst a) \<Longrightarrow> distinct (map fst (spread a b))"
  by (induction b arbitrary: a) (auto simp: distinct_assign)

text \<open>
  C4. The merge is non-destructive: after \<open>updateMetadata\<close> the payment has metadata in
  which every key of the patch has the patch's value and every other key has the value it
  had before (none, if it had none). Objects have one entry per key. With no metadata at
  first, merging \<open>{a: 1}\<close> and then \<open>{b: 2}\<close> gives \<open>{a: 1, b: 2}\<close>.
\<close>

theorem updateMetadata_merge:
  assumes "is_object m"
      and "case metadata p of None \<Rightarrow> True | Some old \<Rightarrow> is_object old"
  shows "case metadata (fst (updateMetadata rt n m p)) of
           None \<Rightarrow> False
         | Some new \<Rightarrow>
             is_object new
             \<and> (\<forall>k. (k \<in> fst ` set m \<longrightarrow> map_of new k = map_of m k)
                   \<and> (k \<notin> fst ` set m \<longrightarrow> map_of new k = property (metadata p) k))"
proof -
  let ?old = "case metadata p of None \<Rightarrow> [] | Some old \<Rightarrow> old"
  have o: "is_object ?old"
    using assms(2) by (cases "metadata p") (simp_all add: is_object_def)
  then have s0: "spread [] ?old = ?old"
    by (simp add: is_object_def spread_fresh)
  have new: "metadata (fst (updateMetadata rt n m p)) = Some (spread ?old m)"
    by (simp add: updateMetadata_fields spread2_def s0)
  have mo: "map_of (spread ?old m) = map_of ?old ++ map_of m"
    using assms(1) by (simp add: map_of_spread map_of_rev_distinct is_object_def)
  have po: "property (metadata p) = map_of ?old"
    by (cases "metadata p") (simp_all add: property_def fun_eq_iff)
  have d: "is_object (spread ?old m)"
    using o by (simp add: is_object_def distinct_spread)
  have "\<forall>k. (k \<in> fst ` set m \<longrightarrow> (map_of ?old ++ map_of m) k = map_of m k)
             \<and> (k \<notin> fst ` set m \<longrightarrow> (map_of ?old ++ map_of m) k = map_of ?old k)"
  proof (intro allI conjI impI)
    fix k assume "k \<in> fst ` set m"
    then obtain v where "map_of m k = Some v"
      by (metis map_of_eq_None_iff not_Some_eq)
    then show "(map_of ?old ++ map_of m) k = map_of m k"
      by (simp add: map_add_def)
  next
    fix k assume "k \<notin> fst ` set m"
    then have "map_of m k = None"
      by (simp add: map_of_eq_None_iff)
    then show "(map_of ?old ++ map_of m) k = map_of ?old k"
      by (simp add: map_add_def)
  qed
  then show ?thesis
    by (simp add: new mo po d)
qed


theorem updateMetadata_merge_witness:
  "is_object [(''b'', JNum 2)]
   \<and> metadata (fst (updateMetadata rt0 1 [(''b'', JNum 2)] pay0))
       = Some [(''a'', JNum 1), (''b'', JNum 2)]
   \<and> metadata (fst (updateMetadata rt0 1 [(''b'', JNum 2)]
          (fst (updateMetadata rt0 0 [(''a'', JNum 1)] (pay0\<lparr>metadata := None\<rparr>)))))
       = Some [(''a'', JNum 1), (''b'', JNum 2)]"
proof -
  have a: "is_object [(''b'', JNum 2)]"
    by (simp add: is_object_def)
  have b: "case metadata pay0 of None \<Rightarrow> True | Some old \<Rightarrow> is_object old"
    by (simp add: pay0_def is_object_def)
  have c: "metadata (fst (updateMetadata rt0 1 [(''b'', JNum 2)] pay0))
       = Some [(''a'', JNum 1), (''b'', JNum 2)]"
    by (simp add: updateMetadata_fields spread2_def pay0_def)
  have d: "metadata (fst (updateMetadata rt0 1 [(''b'', JNum 2)]
          (fst (updateMetadata rt0 0 [(''a'', JNum 1)] (pay0\<lparr>metadata := None\<rparr>)))))
       = Some [(''a'', JNum 1), (''b'', JNum 2)]"
    by (simp add: updateMetadata_fields spread2_def)
  from updateMetadata_merge [OF a b, of rt0 1] a c d show ?thesis
    by simp
qed

subsection \<open>Creation\<close>



lemma keys_Map_set: "fst ` set (Map_set k v kvs) = insert k (fst ` set kvs)"
  by (simp add: dom_map_of_conv_image_fst [symmetric] map_of_Map_set)




subsection \<open>Pagination\<close>

lemma length_insert_by: "length (insert_by cmp x ys) = Suc (length ys)"
  by (induction ys) simp_all

lemma length_Array_sort: "length (Array_sort cmp xs) = length xs"
  by (induction xs) (simp_all add: length_insert_by)

lemma Array_slice_forward:
  assumes "0 \<le> s" and "0 \<le> l"
  shows "Array_slice xs s (s + l) = take (nat l) (drop (nat s) xs)"
proof (cases "s < int (length xs)")
  case inside: True
  let ?ys = "drop (nat s) xs"
  have len: "int (length ?ys) = int (length xs) - s"
    using inside assms(1) by simp
  have sl: "Array_slice xs s (s + l) = take (nat (min (s + l) (int (length xs)) - s)) ?ys"
    using inside assms by (simp add: Array_slice_def Let_def)
  show ?thesis
  proof (cases "s + l \<le> int (length xs)")
    case True
    then show ?thesis
      by (simp add: sl)
  next
    case False
    then have "nat (min (s + l) (int (length xs)) - s) = length ?ys"
      using len by simp
    moreover from False len have "length ?ys \<le> nat l"
      by linarith
    ultimately show ?thesis
      by (simp add: sl)
  qed
next
  case False
  with assms show ?thesis
    by (simp add: Array_slice_def Let_def min_def)
qed

lemma Array_slice_page0:
  assumes "0 < l"
  shows "Array_slice xs (- l) 0 = []"
  using assms by (simp add: Array_slice_def Let_def)

lemma beyond_last_page:
  assumes "1 \<le> limit" and "totalPages n limit < page"
  shows "int n \<le> (page - 1) * limit"
proof -
  from assms(2) have "\<lceil>rat_of_int (int n) / rat_of_int limit\<rceil> \<le> page - 1"
    unfolding totalPages_def by linarith
  then have "rat_of_int (int n) / rat_of_int limit \<le> rat_of_int (page - 1)"
    by (simp only: ceiling_le_iff)
  with assms(1) have "rat_of_int (int n) \<le> rat_of_int (page - 1) * rat_of_int limit"
    by (simp add: pos_divide_le_eq)
  then have "rat_of_int (int n) \<le> rat_of_int ((page - 1) * limit)"
    by simp
  then show ?thesis
    by (simp only: of_int_le_iff)
qed

lemma paginateResults_page:
  "is_page_of matching cmp page limit (paginateResults (Array_sort cmp matching) page limit)"
proof -
  let ?S = "Array_sort cmp matching"
  have t: "total (paginateResults ?S page limit) = length matching"
    by (simp add: paginateResults_def Let_def length_Array_sort)
  have d: "data (paginateResults ?S page limit)
             = Array_slice ?S ((page - 1) * limit) ((page - 1) * limit + limit)"
    by (simp add: paginateResults_def Let_def)
  have a: "data (paginateResults ?S page limit)
             = take (nat limit) (drop (nat ((page - 1) * limit)) ?S)"
    if "1 \<le> page" "0 \<le> limit"
    using that by (simp add: d Array_slice_forward)
  have b: "data (paginateResults ?S page limit) = []" if "1 \<le> limit" "page = 0"
    using that Array_slice_page0 [of limit ?S] d by simp
  have c: "data (paginateResults ?S page limit) = []"
    if l: "1 \<le> limit" and p: "totalPages (length matching) limit < page"
  proof -
    have n: "int (length matching) \<le> (page - 1) * limit"
      using l p by (rule beyond_last_page)
    have "0 \<le> rat_of_int (int (length matching)) / rat_of_int limit"
      using l by simp
    then have "- 1 < rat_of_int (int (length matching)) / rat_of_int limit"
      by linarith
    then have "0 \<le> totalPages (length matching) limit"
      by (simp only: totalPages_def zero_le_ceiling)
    with p have "1 \<le> page" by simp
    with l n show ?thesis
      by (simp add: a length_Array_sort)
  qed
  show ?thesis
    unfolding is_page_of_def using t a b c by blast
qed

text \<open>
  C5, as the code has it. For each of the three paginated queries, every store, page and
  limit: \<open>total\<close> is the number of entities matching the filter; for \<open>page \<ge> 1\<close> and
  \<open>limit \<ge> 0\<close>, \<open>data\<close> is the slice of the filtered, then sorted list from index
  \<open>(page - 1) * limit\<close> of length at most \<open>limit\<close>; for \<open>limit \<ge> 1\<close>, page 0 and every page
  greater than \<open>ceil (total / limit)\<close> give no data. Nothing is said of a negative page.
\<close>

theorem paginated_queries:
  "is_page_of (Map_values (payments w)) (comparator sortBy sortOrder) page limit
     (findPaginated page limit sortBy sortOrder w)
   \<and> is_page_of (filter (\<lambda>payment. customerId payment = cid) (Map_values (payments w)))
       (comparator sortBy sortOrder) page limit
       (findByCustomerIdPaginated cid page limit sortBy sortOrder w)
   \<and> is_page_of (filter (\<lambda>payment. status payment = st) (Map_values (payments w)))
       (comparator sortBy sortOrder) page limit
       (findByStatusPaginated st page limit sortBy sortOrder w)"
  by (simp add: findPaginated_def findByCustomerIdPaginated_def findByStatusPaginated_def
      Let_def paginateResults_page)

text \<open>
  C5 as stated fails for a negative page: \<^verbatim>\<open>slice\<close> counts negative indices from the end,
  so page \<open>-1\<close> with limit 1 over three payments is \<^verbatim>\<open>slice(-2, -1)\<close>, the second
  payment, although the pages are 1 to 3. It fails for a negative limit as well: page 1
  with limit \<open>-1\<close> is \<^verbatim>\<open>slice(0, -1)\<close>, two payments.
\<close>

theorem negative_page_counterexample:
  "total (findPaginated (- 1) 1 ''createdAt'' ''asc'' world3) = 3
   \<and> totalPages 3 1 = 3
   \<and> map id' (data (findPaginated (- 1) 1 ''createdAt'' ''asc'' world3)) = [''p2'']
   \<and> map id' (data (findPaginated 1 (- 1) ''createdAt'' ''asc'' world3)) = [''p1'', ''p2'']"
  by code_simp


theorem paginated_queries_witness:
  "total (findPaginated 2 1 ''amount'' ''asc'' world3) = 3
   \<and> map id' (data (findPaginated 2 1 ''amount'' ''asc'' world3)) = [''p3'']
   \<and> data (findPaginated 4 1 ''amount'' ''asc'' world3) = []
   \<and> data (findPaginated 0 1 ''amount'' ''asc'' world3) = []"
proof -
  have n: "length (Map_values (payments world3)) = 3"
    by (simp add: world3_def Map_values_def)
  have second: "map id' (take (nat 1) (drop (nat ((2 - 1) * 1))
      (Array_sort (comparator ''amount'' ''asc'') (Map_values (payments world3))))) = [''p3'']"
    by code_simp
  have last: "totalPages 3 1 < 4"
    by code_simp
  let ?all = "Map_values (payments world3)" and ?cmp = "comparator ''amount'' ''asc''"
  have p2: "is_page_of ?all ?cmp 2 1 (findPaginated 2 1 ''amount'' ''asc'' world3)"
    using paginated_queries [of world3 "''amount''" "''asc''" 2 1] by (rule conjunct1)
  have p4: "is_page_of ?all ?cmp 4 1 (findPaginated 4 1 ''amount'' ''asc'' world3)"
    using paginated_queries [of world3 "''amount''" "''asc''" 4 1] by (rule conjunct1)
  have p0: "is_page_of ?all ?cmp 0 1 (findPaginated 0 1 ''amount'' ''asc'' world3)"
    using paginated_queries [of world3 "''amount''" "''asc''" 0 1] by (rule conjunct1)
  from p2 have "total (findPaginated 2 1 ''amount'' ''asc'' world3) = length ?all"
    and "data (findPaginated 2 1 ''amount'' ''asc'' world3)
          = take (nat 1) (drop (nat ((2 - 1) * 1)) (Array_sort ?cmp ?all))"
    unfolding is_page_of_def by simp_all
  with n second have a: "total (findPaginated 2 1 ''amount'' ''asc'' world3) = 3"
    and b: "map id' (data (findPaginated 2 1 ''amount'' ''asc'' world3)) = [''p3'']"
    by simp_all
  from p4 have "totalPages (length ?all) 1 < 4 \<longrightarrow>
      data (findPaginated 4 1 ''amount'' ''asc'' world3) = []"
    unfolding is_page_of_def by blast
  with n last have c: "data (findPaginated 4 1 ''amount'' ''asc'' world3) = []"
    by simp
  from p0 have d: "data (findPaginated 0 1 ''amount'' ''asc'' world3) = []"
    unfolding is_page_of_def by simp
  from a b c d show ?thesis
    by simp
qed

subsection \<open>Sorting\<close>

lemma mset_insert_by: "mset (insert_by cmp x ys) = add_mset x (mset ys)"
  by (induction ys) simp_all

lemma mset_Array_sort: "mset (Array_sort cmp xs) = mset xs"
  by (induction xs) (simp_all add: mset_insert_by)

lemma set_insert_by: "set (insert_by cmp x ys) = insert x (set ys)"
  using mset_insert_by [of cmp x ys, THEN arg_cong, of set_mset] by simp

lemma amount_asc_positive:
  "0 < comparator ''amount'' ''asc'' a b \<longleftrightarrow> amount b < amount a"
  by (simp add: comparator_def getSortValue_def js_gt_def Let_def)

lemma sorted_insert_by_amount:
  "sorted (map amount ys) \<Longrightarrow>
   sorted (map amount (insert_by (comparator ''amount'' ''asc'') x ys))"
proof (induction ys)
  case Nil
  then show ?case by simp
next
  case (Cons y ys)
  show ?case
  proof (cases "amount y < amount x")
    case True
    with Cons show ?thesis
      by (auto simp: amount_asc_positive set_insert_by)
  next
    case False
    with Cons.prems show ?thesis
      by (auto simp: amount_asc_positive)
  qed
qed

lemma sorted_Array_sort_amount:
  "sorted (map amount (Array_sort (comparator ''amount'' ''asc'') xs))"
  by (induction xs) (simp_all add: sorted_insert_by_amount)

lemma strictly_sorted_Array_sort_amount:
  assumes "distinct (map amount xs)"
  shows "sorted_wrt (<) (map amount (Array_sort (comparator ''amount'' ''asc'') xs))"
proof -
  have "mset (map amount (Array_sort (comparator ''amount'' ''asc'') xs)) = mset (map amount xs)"
    by (simp add: mset_Array_sort)
  with assms have "distinct (map amount (Array_sort (comparator ''amount'' ''asc'') xs))"
    by (metis mset_eq_imp_distinct_iff)
  then show ?thesis
    by (simp add: strict_sorted_iff sorted_Array_sort_amount)
qed

lemma Array_slice_part: "\<exists>k n. Array_slice xs s e = take n (drop k xs)"
  unfolding Array_slice_def Let_def by blast

lemma getSortValue_default:
  "sortBy \<notin> set sortKeys \<Longrightarrow> getSortValue p sortBy = getSortValue p ''createdAt''"
  by (simp add: sortKeys_def getSortValue_def)

lemma comparator_default:
  "sortBy \<notin> set sortKeys \<Longrightarrow> comparator sortBy sortOrder = comparator ''createdAt'' sortOrder"
  by (simp add: fun_eq_iff comparator_def getSortValue_default)

text \<open>
  C6. With pairwise different amounts, \<open>findPaginated\<close> sorted by \<open>amount\<close> ascending
  returns, on every page, entities in strictly increasing order of amount, and the page
  that holds everything is a permutation of the store (300, 100, 200 come back as 100,
  200, 300). For a \<open>sortBy\<close> that is none of the seven keys, each query returns exactly
  what it returns for \<open>createdAt\<close>.
\<close>

theorem sort_by_amount_and_fallback:
  "(distinct (map amount (Map_values (payments w))) \<longrightarrow>
      sorted_wrt (<) (map amount (data (findPaginated page limit ''amount'' ''asc'' w)))
      \<and> mset (data (findPaginated 1 (int (length (payments w))) ''amount'' ''asc'' w))
          = mset (Map_values (payments w)))
   \<and> (sortBy \<notin> set sortKeys \<longrightarrow>
      findPaginated page limit sortBy sortOrder w
        = findPaginated page limit ''createdAt'' sortOrder w
      \<and> findByCustomerIdPaginated cid page limit sortBy sortOrder w
        = findByCustomerIdPaginated cid page limit ''createdAt'' sortOrder w
      \<and> findByStatusPaginated st page limit sortBy sortOrder w
        = findByStatusPaginated st page limit ''createdAt'' sortOrder w)"
proof (intro conjI impI)
  let ?S = "Array_sort (comparator ''amount'' ''asc'') (Map_values (payments w))"
  assume d: "distinct (map amount (Map_values (payments w)))"
  obtain k n where kn: "data (findPaginated page limit ''amount'' ''asc'' w) = take n (drop k ?S)"
    using Array_slice_part [of ?S "(page - 1) * limit" "(page - 1) * limit + limit"]
    by (auto simp: findPaginated_def paginateResults_def Let_def)
  have "sorted_wrt (<) (take n (drop k (map amount ?S)))"
    using strictly_sorted_Array_sort_amount [OF d]
    by (intro sorted_wrt_take sorted_wrt_drop)
  then show "sorted_wrt (<) (map amount (data (findPaginated page limit ''amount'' ''asc'' w)))"
    by (simp add: kn take_map drop_map)
  have "data (findPaginated 1 (int (length (payments w))) ''amount'' ''asc'' w)
          = take (length (payments w)) ?S"
    using paginateResults_page [of "Map_values (payments w)" "comparator ''amount'' ''asc''" 1
        "int (length (payments w))"]
    by (simp add: is_page_of_def findPaginated_def)
  then show "mset (data (findPaginated 1 (int (length (payments w))) ''amount'' ''asc'' w))
          = mset (Map_values (payments w))"
    by (simp add: length_Array_sort Map_values_def mset_Array_sort)
next
  assume "sortBy \<notin> set sortKeys"
  then show "findPaginated page limit sortBy sortOrder w
        = findPaginated page limit ''createdAt'' sortOrder w"
    by (simp add: findPaginated_def comparator_default)
next
  assume "sortBy \<notin> set sortKeys"
  then show "findByCustomerIdPaginated cid page limit sortBy sortOrder w
        = findByCustomerIdPaginated cid page limit ''createdAt'' sortOrder w"
    by (simp add: findByCustomerIdPaginated_def comparator_default)
next
  assume "sortBy \<notin> set sortKeys"
  then show "findByStatusPaginated st page limit sortBy sortOrder w
        = findByStatusPaginated st page limit ''createdAt'' sortOrder w"
    by (simp add: findByStatusPaginated_def comparator_default)
qed


theorem sort_by_amount_and_fallback_witness:
  "distinct (map amount (Map_values (payments world3)))
   \<and> map amount (Map_values (payments world3)) = [300, 100, 200]
   \<and> map amount (data (findPaginated 1 10 ''amount'' ''asc'' world3)) = [100, 200, 300]
   \<and> sorted_wrt (<) (map amount (data (findPaginated 1 10 ''amount'' ''asc'' world3)))
   \<and> ''priority'' \<notin> set sortKeys
   \<and> findPaginated 1 10 ''priority'' ''desc'' world3
       = findPaginated 1 10 ''createdAt'' ''desc'' world3"
proof -
  have a: "map amount (Map_values (payments world3)) = [300, 100, 200]"
    by (simp add: world3_def Map_values_def pay0_def pay1_def pay2_def)
  then have b: "distinct (map amount (Map_values (payments world3)))"
    by simp
  have c: "map amount (data (findPaginated 1 10 ''amount'' ''asc'' world3)) = [100, 200, 300]"
    by code_simp
  have d: "''priority'' \<notin> set sortKeys"
    by (simp add: sortKeys_def)
  from sort_by_amount_and_fallback [of world3 1 10 "''priority''" "''desc''"] a b c d
  show ?thesis
    by blast
qed

subsection \<open>Persistence\<close>








end
